theory Spec2Isabelle
  imports Main "HOL-Library.Word"
begin

unbundle bit_operations_syntax

section \<open>JavaScript numbers and bitwise operators\<close>

text \<open>
  The driver only ever hands integer-valued numbers to its bitwise operators. They are
  modelled as \<open>int\<close>; every bitwise operator of JavaScript first converts its operands
  with ToInt32 (wrap into the signed 32-bit range) and masks a shift count to five bits.
\<close>

definition toInt32 :: "int \<Rightarrow> int" where
  "toInt32 x = signed_take_bit 31 x"

definition js_shr :: "int \<Rightarrow> nat \<Rightarrow> int" where
  "js_shr x n = drop_bit (n mod 32) (toInt32 x)"

definition js_and :: "int \<Rightarrow> int \<Rightarrow> int" where
  "js_and a b = toInt32 a AND toInt32 b"

definition js_or :: "int \<Rightarrow> int \<Rightarrow> int" where
  "js_or a b = toInt32 a OR toInt32 b"

definition js_not :: "int \<Rightarrow> int" where
  "js_not a = NOT (toInt32 a)"

text \<open>
  A value as \<open>write4Bits\<close> may receive it (\<open>val: number | any\<close>); only the distinction
  made by \<open>typeof val !== 'number'\<close> matters.
\<close>

datatype js_value = JSNumber int | JSString "16 word list" | JSUndefined

text \<open>A string is its sequence of UTF-16 code units, which is what \<open>length\<close> and
  \<open>charCodeAt\<close> see.\<close>

type_synonym js_string = "16 word list"

section \<open>Constants of the module\<close>

definition ROW_OFFSETS :: "int list" where
  "ROW_OFFSETS = [0x00, 0x40, 0x14, 0x54]"

definition CLEAR_DISPLAY :: int where "CLEAR_DISPLAY = 0x01"
definition HOME :: int where "HOME = 0x02"
definition SET_CURSOR :: int where "SET_CURSOR = 0x80"
definition DISPLAY_ON :: int where "DISPLAY_ON = 0x04"
definition DISPLAY_OFF :: int where "DISPLAY_OFF = js_not 0x04"
definition CURSOR_ON :: int where "CURSOR_ON = 0x02"
definition CURSOR_OFF :: int where "CURSOR_OFF = js_not 0x02"
definition BLINK_ON :: int where "BLINK_ON = 0x01"
definition BLINK_OFF :: int where "BLINK_OFF = js_not 0x01"
definition SCROLL_LEFT :: int where "SCROLL_LEFT = 0x18"
definition SCROLL_RIGHT :: int where "SCROLL_RIGHT = 0x1c"
definition LEFT_TO_RIGHT :: int where "LEFT_TO_RIGHT = 0x02"
definition RIGHT_TO_LEFT :: int where "RIGHT_TO_LEFT = js_not 0x02"
definition AUTOSCROLL_ON :: int where "AUTOSCROLL_ON = 0x01"
definition AUTOSCROLL_OFF :: int where "AUTOSCROLL_OFF = js_not 0x01"

section \<open>Pins, observable events and the driver object\<close>

datatype pin = RS | E | D nat

datatype error =
  NotANumber       \<comment> \<open>\<open>Error('Value passed to .write4Bits must be a number')\<close>\<close>
  | PinWriteError  \<comment> \<open>a write to a Gpio threw or rejected\<close>
  | UnhandledError \<comment> \<open>thrown by \<open>emit('error', x)\<close> for an \<open>x\<close> that is no Error, unheard\<close>

datatype payload = PErr error | PStr js_string | PNull | PUndefined

text \<open>
  Everything the driver does to the outside world, in the order the code issues it.
  \<open>PinWrite\<close> is a pin write that succeeded, \<open>PinFault\<close> one that failed.
  \<open>Acquire\<close> is the entry into the callback handed to \<open>this.lock\<close>, \<open>Release\<close> a call
  of its \<open>release\<close> argument.
  \<open>CallCB\<close> and \<open>Emit\<close> are the two branches of \<open>eventOrCB\<close>, a call of the callback and
  a call of \<open>this.emit\<close> that returned. \<open>Detached e\<close> is an
  event of an async call that was started without \<open>await\<close>: it belongs to a task that
  runs concurrently with the untagged events that follow it.
\<close>

datatype event =
  PinWrite pin int
  | PinFault pin int
  | Sleepus nat
  | Delay nat
  | Acquire
  | Release
  | CallCB payload
  | Emit string payload
  | Detached event

text \<open>
  The fields of class \<open>Lcd\<close>, the pin hardware (\<open>faults k\<close> says that the \<open>k\<close>-th pin
  write issued fails; \<open>nwrites\<close> counts the writes issued so far), and the events so far.
  In the notification adapter the class extends \<open>EventEmitter\<close>: \<open>listeners ev\<close> says
  that a listener is registered for the event \<open>ev\<close>. The plain-promise file never reads
  it.
\<close>

record lcd =
  cols :: int
  rows :: int
  largeFont :: bool
  displayControl :: int
  displayMode :: int
  listeners :: "string \<Rightarrow> bool"
  faults :: "nat \<Rightarrow> bool"
  nwrites :: nat
  trace :: "event list"

text \<open>
  The result of an async method: the state afterwards and how its promise settles
  (\<open>Inr ()\<close> resolved, \<open>Inl e\<close> rejected with \<open>e\<close>). A continuation of the caller runs
  only after the method's synchronous code has finished, hence after all its events.
\<close>

type_synonym result = "(error + unit) \<times> lcd"

definition emit_event :: "event \<Rightarrow> lcd \<Rightarrow> lcd" where
  "emit_event e s = s\<lparr>trace := trace s @ [e]\<rparr>"

definition andThen :: "(lcd \<Rightarrow> result) \<Rightarrow> (lcd \<Rightarrow> result) \<Rightarrow> lcd \<Rightarrow> result" where
  "andThen m k s = (case m s of (Inl e, s') \<Rightarrow> (Inl e, s') | (Inr u, s') \<Rightarrow> k s')"

text \<open>\<open>delay\<close> (a timer of \<open>time\<close> ms), \<open>sleepus\<close> (a busy wait of \<open>usDelay\<close> microseconds).\<close>

definition delay :: "nat \<Rightarrow> lcd \<Rightarrow> result" where
  "delay time s = (Inr (), emit_event (Delay time) s)"

definition sleepus :: "nat \<Rightarrow> lcd \<Rightarrow> result" where
  "sleepus usDelay s = (Inr (), emit_event (Sleepus usDelay) s)"

text \<open>\<open>Gpio.write\<close> and \<open>Gpio.writeSync\<close>: the write is issued, and fails when the
  hardware says so.\<close>

definition gpio_write :: "pin \<Rightarrow> int \<Rightarrow> lcd \<Rightarrow> result" where
  "gpio_write p v s =
     (if faults s (nwrites s)
      then (Inl PinWriteError, s\<lparr>nwrites := Suc (nwrites s), trace := trace s @ [PinFault p v]\<rparr>)
      else (Inr (), s\<lparr>nwrites := Suc (nwrites s), trace := trace s @ [PinWrite p v]\<rparr>))"

text \<open>
  \<open>Promise.all(this.data.map((gpio, i) => gpio.write(...)))\<close>: \<open>map\<close> issues every write,
  in index order, before anything is awaited; the whole rejects when one of them fails.
\<close>

fun promise_all_writes :: "(pin \<times> int) list \<Rightarrow> lcd \<Rightarrow> result" where
  "promise_all_writes [] s = (Inr (), s)"
| "promise_all_writes ((p, v) # ws) s =
     (case gpio_write p v s of (r, s1) \<Rightarrow>
        (case promise_all_writes ws s1 of (r', s2) \<Rightarrow>
           (case r of Inl e \<Rightarrow> (Inl e, s2) | Inr u \<Rightarrow> (r', s2))))"

section \<open>Transmission engine (identical in both files)\<close>

definition write4Bits :: "js_value \<Rightarrow> lcd \<Rightarrow> result" where
  "write4Bits val s =
     (case val of
        JSNumber n \<Rightarrow>
          andThen (gpio_write E 1)
            (andThen (promise_all_writes (map (\<lambda>i. (D i, js_and (js_shr n i) 1)) [0..<4]))
               (andThen (gpio_write E 0) (sleepus 1))) s
      | _ \<Rightarrow> (Inl NotANumber, s))"

definition send :: "int \<Rightarrow> int \<Rightarrow> lcd \<Rightarrow> result" where
  "send val mode =
     andThen (gpio_write RS mode)
       (andThen (write4Bits (JSNumber (js_shr val 4))) (write4Bits (JSNumber val)))"

definition command :: "int \<Rightarrow> lcd \<Rightarrow> result" where
  "command cmd = andThen (send cmd 0) (sleepus 39)"

text \<open>\<open>write\<close> of the source, whose name is a keyword here.\<close>

definition write_byte :: "int \<Rightarrow> lcd \<Rightarrow> result" where
  "write_byte val = andThen (send val 1) (sleepus 43)"

section \<open>Construction and initialisation\<close>

text \<open>The options of \<open>LcdConfig\<close> that the driver reads (the pin numbers only name the
  pins \<open>RS\<close>, \<open>E\<close> and \<open>D 0..3\<close>).\<close>

record config =
  cfg_cols :: int
  cfg_rows :: int
  cfg_largeFont :: bool
  cfg_notAutomaticInit :: bool

text \<open>
  An async call whose promise is not awaited: its events are tagged \<open>Detached\<close>, the
  caller goes on at once, and the value it would have produced is dropped.
\<close>

definition detach :: "(lcd \<Rightarrow> 'a \<times> lcd) \<Rightarrow> lcd \<Rightarrow> lcd" where
  "detach m s =
     (case m (s\<lparr>trace := []\<rparr>) of (r, s') \<Rightarrow> s'\<lparr>trace := trace s @ map Detached (trace s')\<rparr>)"

definition displayFunction :: "lcd \<Rightarrow> int" where
  "displayFunction s =
     (let f0 = 0x20;
          f1 = (if rows s > 1 then js_or f0 0x08 else f0);
          f2 = (if rows s = 1 \<and> largeFont s then js_or f1 0x04 else f1)
      in f2)"

text \<open>\<open>init\<close> of the plain-promise file.\<close>

definition init :: "lcd \<Rightarrow> result" where
  "init =
     andThen (delay 16)
    (andThen (write4Bits (JSNumber 0x03))
    (andThen (delay 16)
    (andThen (write4Bits (JSNumber 0x03))
    (andThen (delay 2)
    (andThen (write4Bits (JSNumber 0x03))
    (andThen (delay 2)
    (andThen (write4Bits (JSNumber 0x02))
    (andThen (\<lambda>s. command (displayFunction s) s)
    (andThen (command 0x10)
    (andThen (\<lambda>s. command (displayControl s) s)
    (andThen (\<lambda>s. command (displayMode s) s)
    (andThen (command 0x01)
             (delay 3)))))))))))))"

text \<open>The constructor of the plain-promise file; \<open>hw\<close> is the behaviour of the pins it
  exports. \<open>x || d\<close> takes \<open>d\<close> when \<open>x\<close> is 0. A new object has no listeners.\<close>

definition constructor :: "config \<Rightarrow> (nat \<Rightarrow> bool) \<Rightarrow> lcd" where
  "constructor config hw =
     (let this = \<lparr>cols = (if cfg_cols config = 0 then 16 else cfg_cols config),
                  rows = (if cfg_rows config = 0 then 1 else cfg_rows config),
                  largeFont = cfg_largeFont config,
                  displayControl = 0x0c,
                  displayMode = 0x06,
                  listeners = (\<lambda>ev. False),
                  faults = hw, nwrites = 0, trace = []\<rparr>
      in if \<not> cfg_notAutomaticInit config then detach init this else this)"

section \<open>Printing (plain-promise file)\<close>

text \<open>\<open>str.charCodeAt(index)\<close>. Out of range it is NaN, which every bitwise operator of the
  driver reads as 0.\<close>

definition charCodeAt :: "js_string \<Rightarrow> nat \<Rightarrow> int" where
  "charCodeAt str index = (if index < length str then uint (str ! index) else 0)"

text \<open>
  \<open>printChar\<close> defers each step with \<open>setImmediate\<close>, which changes nothing in the
  order of the events of one operation. A failure below is caught at every level of the
  recursion, and every level calls \<open>release\<close> before it rejects.
\<close>

function printChar :: "js_string \<Rightarrow> nat \<Rightarrow> lcd \<Rightarrow> result" where
  "printChar str index s =
     (if index \<ge> length str then (Inr (), emit_event Release s)
      else (case write_byte (charCodeAt str index) s of
              (Inl err, s1) \<Rightarrow> (Inl err, emit_event Release s1)
            | (Inr u, s1) \<Rightarrow>
                (case printChar str (index + 1) s1 of
                   (Inl err, s2) \<Rightarrow> (Inl err, emit_event Release s2)
                 | (Inr u', s2) \<Rightarrow> (Inr (), s2))))"
  by pat_completeness auto
termination
  by (relation "measure (\<lambda>(str, index, s). length str - index)") auto

definition print :: "js_string \<Rightarrow> lcd \<Rightarrow> result" where
  "print val s =
     (let str = val;
          displayFills = length str div 80;
          index = (if displayFills > 1 then (displayFills - 1) * 80 else 0)
      in printChar str index (emit_event Acquire s))"

section \<open>Commands (plain-promise file)\<close>

definition commandAndDelay :: "int \<Rightarrow> nat \<Rightarrow> lcd \<Rightarrow> result" where
  "commandAndDelay cmd timeout s =
     (case andThen (command cmd) (delay timeout) (emit_event Acquire s) of
        (r, s') \<Rightarrow> (r, emit_event Release s'))"

definition clear :: "lcd \<Rightarrow> result" where
  "clear = commandAndDelay CLEAR_DISPLAY 3"

definition home :: "lcd \<Rightarrow> result" where
  "home = commandAndDelay HOME 3"

section \<open>Cursor and display state (identical in both files)\<close>

text \<open>\<open>ROW_OFFSETS[r]\<close>: \<open>undefined\<close> (here \<open>None\<close>) outside the array.\<close>

definition ROW_OFFSETS_at :: "int \<Rightarrow> int option" where
  "ROW_OFFSETS_at r =
     (if 0 \<le> r \<and> r < int (length ROW_OFFSETS) then Some (ROW_OFFSETS ! nat r) else None)"

text \<open>\<open>col + undefined\<close> is NaN, and \<open>SET_CURSOR | NaN\<close> is \<open>SET_CURSOR | 0\<close>.\<close>

definition setCursor :: "int \<Rightarrow> int \<Rightarrow> lcd \<Rightarrow> result" where
  "setCursor col row s =
     (let r = (if row > rows s then rows s - 1 else row)
      in case ROW_OFFSETS_at r of
           Some off \<Rightarrow> command (js_or SET_CURSOR (col + off)) s
         | None \<Rightarrow> command (js_or SET_CURSOR 0) s)"

definition display :: "lcd \<Rightarrow> result" where
  "display s =
     (let s' = s\<lparr>displayControl := js_or (displayControl s) DISPLAY_ON\<rparr>
      in command (displayControl s') s')"

definition noDisplay :: "lcd \<Rightarrow> result" where
  "noDisplay s =
     (let s' = s\<lparr>displayControl := js_and (displayControl s) DISPLAY_OFF\<rparr>
      in command (displayControl s') s')"

definition cursor :: "lcd \<Rightarrow> result" where
  "cursor s =
     (let s' = s\<lparr>displayControl := js_or (displayControl s) CURSOR_ON\<rparr>
      in command (displayControl s') s')"

definition noCursor :: "lcd \<Rightarrow> result" where
  "noCursor s =
     (let s' = s\<lparr>displayControl := js_and (displayControl s) CURSOR_OFF\<rparr>
      in command (displayControl s') s')"

definition blink :: "lcd \<Rightarrow> result" where
  "blink s =
     (let s' = s\<lparr>displayControl := js_or (displayControl s) BLINK_ON\<rparr>
      in command (displayControl s') s')"

definition noBlink :: "lcd \<Rightarrow> result" where
  "noBlink s =
     (let s' = s\<lparr>displayControl := js_and (displayControl s) BLINK_OFF\<rparr>
      in command (displayControl s') s')"

definition scrollDisplayLeft :: "lcd \<Rightarrow> result" where
  "scrollDisplayLeft = command SCROLL_LEFT"

definition scrollDisplayRight :: "lcd \<Rightarrow> result" where
  "scrollDisplayRight = command SCROLL_RIGHT"

definition leftToRight :: "lcd \<Rightarrow> result" where
  "leftToRight s =
     (let s' = s\<lparr>displayMode := js_or (displayMode s) LEFT_TO_RIGHT\<rparr>
      in command (displayMode s') s')"

definition rightToLeft :: "lcd \<Rightarrow> result" where
  "rightToLeft s =
     (let s' = s\<lparr>displayMode := js_and (displayMode s) RIGHT_TO_LEFT\<rparr>
      in command (displayMode s') s')"

definition autoscroll :: "lcd \<Rightarrow> result" where
  "autoscroll s =
     (let s' = s\<lparr>displayMode := js_or (displayMode s) AUTOSCROLL_ON\<rparr>
      in command (displayMode s') s')"

definition noAutoscroll :: "lcd \<Rightarrow> result" where
  "noAutoscroll s =
     (let s' = s\<lparr>displayMode := js_and (displayMode s) AUTOSCROLL_OFF\<rparr>
      in command (displayMode s') s')"

text \<open>The six operations on Display Control, and a caller that awaits a sequence of them.\<close>

datatype toggle = TDisplay | TNoDisplay | TCursor | TNoCursor | TBlink | TNoBlink

fun toggle_op :: "toggle \<Rightarrow> lcd \<Rightarrow> result" where
  "toggle_op TDisplay = display"
| "toggle_op TNoDisplay = noDisplay"
| "toggle_op TCursor = cursor"
| "toggle_op TNoCursor = noCursor"
| "toggle_op TBlink = blink"
| "toggle_op TNoBlink = noBlink"

fun run_toggles :: "toggle list \<Rightarrow> lcd \<Rightarrow> lcd" where
  "run_toggles [] s = s"
| "run_toggles (t # ts) s = run_toggles ts (snd (toggle_op t s))"

declare toggle_op.simps [simp del]

text \<open>The value each of the six operations assigns to Display Control.\<close>

definition toggle_reg :: "toggle \<Rightarrow> int \<Rightarrow> int" where
  "toggle_reg t dc =
     (case t of
        TDisplay \<Rightarrow> js_or dc DISPLAY_ON
      | TNoDisplay \<Rightarrow> js_and dc DISPLAY_OFF
      | TCursor \<Rightarrow> js_or dc CURSOR_ON
      | TNoCursor \<Rightarrow> js_and dc CURSOR_OFF
      | TBlink \<Rightarrow> js_or dc BLINK_ON
      | TNoBlink \<Rightarrow> js_and dc BLINK_OFF)"

section \<open>The notification adapter (\<open>src/lcd-ts.ts\<close>)\<close>

text \<open>
  How the promise of an adapter method ends: settled (\<open>Inr ()\<close> resolved, \<open>Inl e\<close>
  rejected), or \<open>Pending\<close> for ever, when an error escapes the code that would have
  settled it.
\<close>

datatype settlement = Settled "error + unit" | Pending

text \<open>
  \<open>eventOrCB(err, value, event, cb)\<close>; \<open>cb\<close> says whether the caller passed a callback.
  Without one it calls \<open>this.emit(event, err || value)\<close>, and \<open>emit\<close> of an
  \<open>EventEmitter\<close> throws when the event is \<open>'error'\<close> and no listener is registered for
  it: the error itself if the payload is one. \<open>Inl\<close> is what it throws.
\<close>

definition eventOrCB ::
  "error option \<Rightarrow> payload \<Rightarrow> string \<Rightarrow> bool \<Rightarrow> lcd \<Rightarrow> (error + unit) \<times> lcd" where
  "eventOrCB err val event cb s =
     (if cb
      then (case err of Some e \<Rightarrow> (Inr (), emit_event (CallCB (PErr e)) s)
                      | None \<Rightarrow> (Inr (), emit_event (CallCB val) s))
      else if event = ''error'' \<and> \<not> listeners s ''error''
      then (Inl (case err of Some e \<Rightarrow> e | None \<Rightarrow> UnhandledError), s)
      else (Inr (), emit_event (Emit event (case err of Some e \<Rightarrow> PErr e | None \<Rightarrow> val)) s))"

definition init_ev :: "lcd \<Rightarrow> result" where
  "init_ev = andThen init (\<lambda>s. (Inr (), emit_event (Emit ''ready'' PUndefined) s))"

text \<open>
  The \<open>catch\<close> block of the adapter's \<open>printChar\<close>: \<open>eventOrCB\<close>, then \<open>release()\<close>, then
  \<open>reject(err)\<close>. When \<open>eventOrCB\<close> throws, neither of the two is reached: the lock stays
  held and the promise pending.
\<close>

definition printChar_catch :: "error \<Rightarrow> bool \<Rightarrow> lcd \<Rightarrow> settlement \<times> lcd" where
  "printChar_catch err cb s =
     (case eventOrCB (Some err) PUndefined ''error'' cb s of
        (Inl thrown, s1) \<Rightarrow> (Pending, s1)
      | (Inr u, s1) \<Rightarrow> (Settled (Inl err), emit_event Release s1))"

text \<open>An inner \<open>printChar\<close> whose promise stays pending leaves the outer one waiting.\<close>

function printChar_ev :: "js_string \<Rightarrow> nat \<Rightarrow> bool \<Rightarrow> lcd \<Rightarrow> settlement \<times> lcd" where
  "printChar_ev str index cb s =
     (if index \<ge> length str
      then (case eventOrCB None (PStr str) ''printed'' cb s of
              (Inl thrown, s1) \<Rightarrow> (Pending, s1)
            | (Inr u, s1) \<Rightarrow> (Settled (Inr ()), emit_event Release s1))
      else (case write_byte (charCodeAt str index) s of
              (Inl err, s1) \<Rightarrow> printChar_catch err cb s1
            | (Inr u, s1) \<Rightarrow>
                (case printChar_ev str (index + 1) cb s1 of
                   (Pending, s2) \<Rightarrow> (Pending, s2)
                 | (Settled (Inl err), s2) \<Rightarrow> printChar_catch err cb s2
                 | (Settled (Inr u'), s2) \<Rightarrow> (Settled (Inr ()), s2))))"
  by pat_completeness auto
termination
  by (relation "measure (\<lambda>(str, index, cb, s). length str - index)") auto

definition print_ev :: "js_string \<Rightarrow> bool \<Rightarrow> lcd \<Rightarrow> settlement \<times> lcd" where
  "print_ev val cb s =
     (let str = val;
          displayFills = length str div 80;
          index = (if displayFills > 1 then (displayFills - 1) * 80 else 0)
      in printChar_ev str index cb (emit_event Acquire s))"

text \<open>\<open>tryCommand\<close>, an async function: what it does and how its promise settles, with
  the boolean it resolves to. It rejects when \<open>eventOrCB\<close> throws in its \<open>catch\<close> block.\<close>

definition tryCommand :: "int \<Rightarrow> bool \<Rightarrow> lcd \<Rightarrow> (error + bool) \<times> lcd" where
  "tryCommand cmd cb s =
     (case command cmd s of
        (Inr u, s') \<Rightarrow> (Inr True, s')
      | (Inl e, s') \<Rightarrow>
          (case eventOrCB (Some e) PUndefined ''error'' cb s' of
             (Inl thrown, s'') \<Rightarrow> (Inl thrown, s'')
           | (Inr u, s'') \<Rightarrow> (Inr False, s'')))"

text \<open>
  \<open>commandAndDelay\<close> of the adapter tests \<open>if (this.tryCommand(command, cb))\<close> without
  \<open>await\<close>: the call is detached, and the condition is its promise object, which is
  truthy however the promise settles. The promise returned to the caller is never
  rejected; it is resolved after \<open>release()\<close>, unless \<open>eventOrCB\<close> throws before that.
\<close>

definition commandAndDelay_ev ::
  "int \<Rightarrow> nat \<Rightarrow> string \<Rightarrow> bool \<Rightarrow> lcd \<Rightarrow> settlement \<times> lcd" where
  "commandAndDelay_ev cmd timeout event cb s =
     (let s1 = detach (tryCommand cmd cb) (emit_event Acquire s);
          promise_is_truthy = True
      in if promise_is_truthy
         then (case eventOrCB None PNull event cb (snd (delay timeout s1)) of
                 (Inl thrown, s2) \<Rightarrow> (Pending, s2)
               | (Inr u, s2) \<Rightarrow> (Settled (Inr ()), emit_event Release s2))
         else (Settled (Inr ()), emit_event Release s1))"

definition clear_ev :: "bool \<Rightarrow> lcd \<Rightarrow> settlement \<times> lcd" where
  "clear_ev cb = commandAndDelay_ev CLEAR_DISPLAY 3 ''clear'' cb"


declare printChar.simps [simp del]

declare printChar_ev.simps [simp del]

section \<open>Reference frames, in the words of the specification\<close>

text \<open>Bit \<open>i\<close> of a nibble as a pin level.\<close>

definition nibble_bit :: "int \<Rightarrow> nat \<Rightarrow> int" where
  "nibble_bit n i = of_bool (bit n i)"

text \<open>One nibble on the bus: enable high, the four data pins, enable low, settle.\<close>

definition nibble_frame :: "int \<Rightarrow> event list" where
  "nibble_frame n =
     [PinWrite E 1,
      PinWrite (D 0) (nibble_bit n 0), PinWrite (D 1) (nibble_bit n 1),
      PinWrite (D 2) (nibble_bit n 2), PinWrite (D 3) (nibble_bit n 3),
      PinWrite E 0, Sleepus 1]"

text \<open>One byte on the bus: register select, high nibble, low nibble.\<close>

definition byte_frame :: "int \<Rightarrow> int \<Rightarrow> event list" where
  "byte_frame mode v =
     PinWrite RS mode # nibble_frame (drop_bit 4 v) @ nibble_frame (v AND 0xF)"

text \<open>A command byte and a character byte with their execution-time waits.\<close>

definition command_frame :: "int \<Rightarrow> event list" where
  "command_frame c = byte_frame 0 c @ [Sleepus 39]"

definition char_frame :: "int \<Rightarrow> event list" where
  "char_frame c = byte_frame 1 c @ [Sleepus 43]"

text \<open>What \<open>eventOrCB\<close> hands to the caller: the callback if there is one, else the event.\<close>

definition report :: "bool \<Rightarrow> string \<Rightarrow> payload \<Rightarrow> event" where
  "report cb event p = (if cb then CallCB p else Emit event p)"

fun is_report :: "event \<Rightarrow> bool" where
  "is_report (CallCB p) = True"
| "is_report (Emit ev p) = True"
| "is_report (Detached e) = is_report e"
| "is_report e = False"

text \<open>An idle driver of one row on pins that never fail, with a listener on every event,
  for concrete runs.\<close>

definition lcd0 :: lcd where
  "lcd0 = \<lparr>cols = 16, rows = 1, largeFont = False, displayControl = 0x0c, displayMode = 0x06,
     listeners = (\<lambda>ev. True), faults = (\<lambda>k. False), nwrites = 0, trace = []\<rparr>"

text \<open>A four-row driver on pins that never fail, constructed without automatic
  initialisation.\<close>

definition lcd4 :: lcd where
  "lcd4 = constructor \<lparr>cfg_cols = 20, cfg_rows = 4, cfg_largeFont = True,
            cfg_notAutomaticInit = True\<rparr> (\<lambda>k. False)"

text \<open>The same with two rows.\<close>

definition lcd2 :: lcd where
  "lcd2 = constructor \<lparr>cfg_cols = 16, cfg_rows = 2, cfg_largeFont = False,
            cfg_notAutomaticInit = True\<rparr> (\<lambda>k. False)"

text \<open>A two-row driver whose first pin write fails (a register-select pin that cannot
  be written, say): as constructed, with no listener, and after the caller has
  registered a listener on every event.\<close>

definition lcd_rs_fault_unheard :: lcd where
  "lcd_rs_fault_unheard = constructor \<lparr>cfg_cols = 16, cfg_rows = 2, cfg_largeFont = False,
            cfg_notAutomaticInit = True\<rparr> (\<lambda>k. k = 0)"

definition lcd_rs_fault :: lcd where
  "lcd_rs_fault = lcd_rs_fault_unheard\<lparr>listeners := (\<lambda>ev. True)\<rparr>"

text \<open>The events a method has added.\<close>

definition new_events :: "lcd \<Rightarrow> lcd \<Rightarrow> event list" where
  "new_events s s' = drop (length (trace s)) (trace s')"





text \<open>The pin writes and waits of a trace, whichever task issued them.\<close>

fun is_core :: "event \<Rightarrow> bool" where
  "is_core (PinWrite p v) = True"
| "is_core (PinFault p v) = True"
| "is_core (Sleepus n) = True"
| "is_core (Delay n) = True"
| "is_core (Detached e) = is_core e"
| "is_core e = False"

fun undetach :: "event \<Rightarrow> event" where
  "undetach (Detached e) = undetach e"
| "undetach e = e"

definition core_events :: "event list \<Rightarrow> event list" where
  "core_events evs = map undetach (filter is_core evs)"

text \<open>The hardware never fails a pin write.\<close>

definition healthy :: "lcd \<Rightarrow> bool" where
  "healthy s = (\<forall>k. \<not> faults s k)"

text \<open>A method changes nothing of the object but the pin-write count and the events:
  \<open>unchanged s s'\<close> compares the other fields.\<close>

definition unchanged :: "lcd \<Rightarrow> lcd \<Rightarrow> bool" where
  "unchanged s s' =
     (cols s' = cols s \<and> rows s' = rows s \<and> largeFont s' = largeFont s \<and>
      displayControl s' = displayControl s \<and> displayMode s' = displayMode s \<and>
      listeners s' = listeners s \<and> faults s' = faults s)"

definition frame_only :: "(lcd \<Rightarrow> 'a \<times> lcd) \<Rightarrow> bool" where
  "frame_only m = (\<forall>s. unchanged s (snd (m s)))"

text \<open>A method that reports nothing to the caller.\<close>

definition quiet :: "(lcd \<Rightarrow> result) \<Rightarrow> bool" where
  "quiet m = (\<forall>s. \<exists>ws. trace (snd (m s)) = trace s @ ws \<and> filter is_report ws = [])"

text \<open>A method whose promise never rejects with the error of the \<open>write4Bits\<close> guard.\<close>

definition guard_free :: "(lcd \<Rightarrow> result) \<Rightarrow> bool" where
  "guard_free m = (\<forall>s. fst (m s) \<noteq> Inl NotANumber)"

section \<open>Lemmas on the transmission engine\<close>

lemma healthy_update [simp]:
  "healthy (s\<lparr>trace := t\<rparr>) = healthy s"
  "healthy (s\<lparr>nwrites := n\<rparr>) = healthy s"
  "healthy (s\<lparr>displayControl := c\<rparr>) = healthy s"
  "healthy (s\<lparr>displayMode := m\<rparr>) = healthy s"
  "healthy (s\<lparr>listeners := l\<rparr>) = healthy s"
  by (simp_all add: healthy_def)

lemma toInt32_bit: "bit (toInt32 x) k = bit x (min 31 k)"
  by (simp add: toInt32_def bit_signed_take_bit_iff)

lemma toInt32_id: "0 \<le> x \<Longrightarrow> x < 2 ^ 31 \<Longrightarrow> toInt32 x = x"
  unfolding toInt32_def by (simp add: signed_take_bit_int_eq_self)

lemma and_1_bit: "(x::int) AND 1 = of_bool (bit x 0)"
  by (simp add: and_one_eq bit_0 mod2_eq_if)

text \<open>The level the code puts on data pin \<open>i\<close> is bit \<open>i\<close> of the argument.\<close>

lemma js_data_bit:
  assumes "i < 32"
  shows "js_and (js_shr n i) 1 = nibble_bit n i"
proof -
  have one: "toInt32 1 = 1" by (simp add: toInt32_def)
  have "js_and (js_shr n i) 1 = of_bool (bit (toInt32 (drop_bit i (toInt32 n))) 0)"
    using assms by (simp only: js_and_def js_shr_def one and_1_bit mod_less)
  also have "bit (toInt32 (drop_bit i (toInt32 n))) 0 = bit n i"
    using assms by (simp add: toInt32_bit bit_drop_bit_eq)
  finally show ?thesis by (simp add: nibble_bit_def)
qed

lemma upt_0_4: "[0..<4] = [0, 1, 2, Suc 2]"
  by (simp add: upt_rec)

lemma gpio_write_ok:
  "healthy s \<Longrightarrow> gpio_write p v s =
     (Inr (), s\<lparr>nwrites := Suc (nwrites s), trace := trace s @ [PinWrite p v]\<rparr>)"
  by (simp add: gpio_write_def healthy_def)

lemma sleepus_eq: "sleepus n s = (Inr (), s\<lparr>trace := trace s @ [Sleepus n]\<rparr>)"
  by (simp add: sleepus_def emit_event_def)

lemma delay_eq: "delay n s = (Inr (), s\<lparr>trace := trace s @ [Delay n]\<rparr>)"
  by (simp add: delay_def emit_event_def)

lemma data_writes_ok:
  "healthy s \<Longrightarrow>
   promise_all_writes (map (\<lambda>i. (D i, js_and (js_shr n i) 1)) [0..<4]) s =
     (Inr (), s\<lparr>nwrites := nwrites s + 4,
        trace := trace s @ [PinWrite (D 0) (nibble_bit n 0), PinWrite (D 1) (nibble_bit n 1),
          PinWrite (D 2) (nibble_bit n 2), PinWrite (D 3) (nibble_bit n 3)]\<rparr>)"
  by (simp add: upt_0_4 gpio_write_ok js_data_bit numeral_3_eq_3)

lemma write4Bits_ok:
  "healthy s \<Longrightarrow> write4Bits (JSNumber n) s =
     (Inr (), s\<lparr>nwrites := nwrites s + 6, trace := trace s @ nibble_frame n\<rparr>)"
  by (simp add: write4Bits_def andThen_def gpio_write_ok data_writes_ok sleepus_eq
      nibble_frame_def)

lemma send_ok:
  "healthy s \<Longrightarrow> send val mode s =
     (Inr (), s\<lparr>nwrites := nwrites s + 13,
        trace := trace s @ PinWrite RS mode # nibble_frame (js_shr val 4) @ nibble_frame val\<rparr>)"
  by (simp add: send_def andThen_def gpio_write_ok write4Bits_ok)

lemma nibble_bit_drop: "nibble_bit (drop_bit k v) i = nibble_bit v (i + k)"
  by (simp add: nibble_bit_def bit_drop_bit_eq add.commute)

lemma nibble_bit_toInt32: "i < 32 \<Longrightarrow> nibble_bit (toInt32 v) i = nibble_bit v i"
  by (simp add: nibble_bit_def toInt32_bit)

lemma nibble_bit_high:
  assumes "i < 4"
  shows "nibble_bit (js_shr v 4) i = nibble_bit v (i + 4)"
proof -
  have "nibble_bit (js_shr v 4) i = nibble_bit (toInt32 v) (i + 4)"
    by (simp only: js_shr_def nibble_bit_drop) simp
  also have "\<dots> = nibble_bit v (i + 4)"
    using assms by (intro nibble_bit_toInt32) simp
  finally show ?thesis .
qed

lemma bit_15: "i < 4 \<Longrightarrow> bit (15::int) i"
proof -
  assume "i < 4"
  then have "i = 0 \<or> i = 1 \<or> i = 2 \<or> i = 3" by arith
  then show ?thesis
    by (auto simp add: bit_numeral_simps numeral_3_eq_3 numeral_2_eq_2 bit_Suc bit_0)
qed

lemma nibble_bit_low: "i < 4 \<Longrightarrow> nibble_bit (v AND 0xF) i = nibble_bit v i"
  by (simp add: nibble_bit_def bit_and_iff bit_15)

lemma nibble_frame_cong:
  "(\<And>i. i < 4 \<Longrightarrow> nibble_bit a i = nibble_bit b i) \<Longrightarrow> nibble_frame a = nibble_frame b"
  by (simp add: nibble_frame_def)

lemma nibble_frame_high: "nibble_frame (js_shr v 4) = nibble_frame (drop_bit 4 v)"
  by (rule nibble_frame_cong) (simp only: nibble_bit_high nibble_bit_drop)

lemma nibble_frame_low: "nibble_frame v = nibble_frame (v AND 0xF)"
  by (rule nibble_frame_cong) (simp add: nibble_bit_low)

lemma send_byte_frame:
  "healthy s \<Longrightarrow> send val mode s =
     (Inr (), s\<lparr>nwrites := nwrites s + 13, trace := trace s @ byte_frame mode val\<rparr>)"
  using nibble_frame_low [of val]
  by (simp add: send_ok byte_frame_def nibble_frame_high)

lemma healthy_lcd0: "healthy lcd0"
  by (simp add: healthy_def lcd0_def)

section \<open>The byte-send operation\<close>

text \<open>
  Claim C1. On pins that accept every write, \<open>send v mode\<close> for a byte \<open>v\<close> in 0..255
  writes the register-select pin to \<open>mode\<close>, then the frame of the high nibble \<open>v >> 4\<close>,
  then the frame of the low nibble \<open>v & 0xF\<close>. Each frame is: enable high, data pins
  0..3 at bits 0..3 of the nibble, enable low (and the 1 microsecond settle); the first
  frame is complete before the second starts.
\<close>

theorem C1_sendByte_frames:
  assumes "healthy s" and "0 \<le> v" and "v \<le> 255"
  shows "fst (send v mode s) = Inr () \<and>
         trace (snd (send v mode s)) =
           trace s @ [PinWrite RS mode]
             @ [PinWrite E 1,
                PinWrite (D 0) (nibble_bit (drop_bit 4 v) 0),
                PinWrite (D 1) (nibble_bit (drop_bit 4 v) 1),
                PinWrite (D 2) (nibble_bit (drop_bit 4 v) 2),
                PinWrite (D 3) (nibble_bit (drop_bit 4 v) 3),
                PinWrite E 0, Sleepus 1]
             @ [PinWrite E 1,
                PinWrite (D 0) (nibble_bit (v AND 0xF) 0),
                PinWrite (D 1) (nibble_bit (v AND 0xF) 1),
                PinWrite (D 2) (nibble_bit (v AND 0xF) 2),
                PinWrite (D 3) (nibble_bit (v AND 0xF) 3),
                PinWrite E 0, Sleepus 1]"
  using assms(1) by (simp add: send_byte_frame byte_frame_def nibble_frame_def)

theorem C1_sendByte_frames_witness:
  "healthy lcd0 \<and> (0::int) \<le> 0xA5 \<and> (0xA5::int) \<le> 255 \<and>
   fst (send 0xA5 1 lcd0) = Inr () \<and>
   trace (snd (send 0xA5 1 lcd0)) =
     [PinWrite RS 1,
      PinWrite E 1, PinWrite (D 0) 0, PinWrite (D 1) 1, PinWrite (D 2) 0, PinWrite (D 3) 1,
      PinWrite E 0, Sleepus 1,
      PinWrite E 1, PinWrite (D 0) 1, PinWrite (D 1) 0, PinWrite (D 2) 1, PinWrite (D 3) 0,
      PinWrite E 0, Sleepus 1]"
proof -
  have t: "trace lcd0 = []" by (simp add: lcd0_def)
  show ?thesis
    using healthy_lcd0 C1_sendByte_frames [OF healthy_lcd0, of "0xA5" 1]
    by (simp add: t nibble_bit_def bit_numeral_simps numeral_3_eq_3 numeral_2_eq_2 bit_Suc
        bit_0 drop_bit_eq_div)
qed

lemma write4Bits_cong:
  assumes "\<And>i. i < 4 \<Longrightarrow> nibble_bit a i = nibble_bit b i"
  shows "write4Bits (JSNumber a) = write4Bits (JSNumber b)"
proof -
  have "map (\<lambda>i. (D i, js_and (js_shr a i) 1)) [0..<4] = map (\<lambda>i. (D i, js_and (js_shr b i) 1)) [0..<4]"
    using assms by (simp add: js_data_bit)
  then show ?thesis
    by (intro ext) (simp only: write4Bits_def js_value.case)
qed

lemma bit_255: "k < 8 \<Longrightarrow> bit (255::int) k"
proof -
  have "(255::int) = mask 8" by (simp add: mask_eq_exp_minus_1)
  then show "k < 8 \<Longrightarrow> bit (255::int) k" by (simp only: bit_mask_iff) simp
qed

lemma nibble_bit_and_255:
  assumes "k < 8"
  shows "nibble_bit (js_and v 0xFF) k = nibble_bit v k"
proof -
  have "toInt32 255 = 255" by (simp add: toInt32_def)
  then have "bit (js_and v 0xFF) k = (bit (toInt32 v) k \<and> bit (255::int) k)"
    by (simp add: js_and_def bit_and_iff)
  then show ?thesis
    using assms by (simp add: nibble_bit_def bit_255 toInt32_bit)
qed

section \<open>Only the low byte is transmitted\<close>

text \<open>
  Claim C9. For every integer \<open>v\<close> with \<open>0 \<le> v < 2^31\<close> and every mode, \<open>send v mode\<close>
  does exactly what \<open>send (v & 0xFF) mode\<close> does, on any pins (result, pin writes,
  waits and state): a nibble write reads only bits 0..3 of its argument.
\<close>

theorem C9_send_low_byte:
  assumes "0 \<le> v" and "v < 2 ^ 31"
  shows "send v mode s = send (js_and v 0xFF) mode s"
proof -
  have hi: "write4Bits (JSNumber (js_shr v 4)) = write4Bits (JSNumber (js_shr (js_and v 0xFF) 4))"
    by (rule write4Bits_cong) (simp add: nibble_bit_high nibble_bit_and_255)
  have lo: "write4Bits (JSNumber v) = write4Bits (JSNumber (js_and v 0xFF))"
    by (rule write4Bits_cong) (simp add: nibble_bit_and_255)
  show ?thesis
    by (simp only: send_def hi lo)
qed


lemma js_and_321: "js_and 0x141 0xFF = 0x41"
  by (simp add: js_and_def toInt32_def)

theorem C9_send_low_byte_witness:
  "(0::int) \<le> 0x141 \<and> (0x141::int) < 2 ^ 31 \<and> send 0x141 1 lcd0 = send 0x41 1 lcd0"
  using C9_send_low_byte [of "0x141" 1 lcd0] by (simp add: js_and_321)




section \<open>The guard of the nibble write\<close>

lemma guard_free_andThen:
  "guard_free m \<Longrightarrow> guard_free k \<Longrightarrow> guard_free (andThen m k)"
  by (auto simp add: guard_free_def andThen_def split: prod.splits sum.splits)
     (metis fst_conv)+

lemma guard_free_gpio_write: "guard_free (gpio_write p v)"
  by (simp add: guard_free_def gpio_write_def)

lemma guard_free_sleepus: "guard_free (sleepus n)"
  by (simp add: guard_free_def sleepus_def)

lemma promise_all_writes_guard: "fst (promise_all_writes ws s) \<noteq> Inl NotANumber"
proof (induction ws arbitrary: s)
  case Nil
  show ?case by simp
next
  case (Cons w ws)
  obtain p v where w: "w = (p, v)" by (cases w)
  obtain r s1 where g: "gpio_write p v s = (r, s1)" by (cases "gpio_write p v s")
  obtain r' s2 where a: "promise_all_writes ws s1 = (r', s2)"
    by (cases "promise_all_writes ws s1")
  have "r \<noteq> Inl NotANumber"
    using g by (auto simp add: gpio_write_def split: if_splits)
  moreover have "r' \<noteq> Inl NotANumber"
    using Cons.IH [of s1] a by simp
  ultimately show ?case
    by (auto simp add: w g a split: sum.splits)
qed

lemma guard_free_write4Bits: "guard_free (write4Bits (JSNumber n))"
proof -
  have "write4Bits (JSNumber n) =
          andThen (gpio_write E 1)
            (andThen (promise_all_writes (map (\<lambda>i. (D i, js_and (js_shr n i) 1)) [0..<4]))
               (andThen (gpio_write E 0) (sleepus 1)))"
    by (intro ext) (simp add: write4Bits_def)
  moreover have "guard_free (promise_all_writes ws)" for ws
    by (simp add: guard_free_def promise_all_writes_guard)
  ultimately show ?thesis
    by (simp only: guard_free_andThen guard_free_gpio_write guard_free_sleepus)
qed

lemma guard_free_write_byte: "guard_free (write_byte c)"
  unfolding write_byte_def send_def
  by (intro guard_free_andThen guard_free_gpio_write guard_free_write4Bits guard_free_sleepus)

lemma printChar_guard: "fst (printChar str index s) \<noteq> Inl NotANumber"
proof (induction str index s rule: printChar.induct)
  case (1 str index s)
  have w: "fst (write_byte (charCodeAt str index) s) \<noteq> Inl NotANumber"
    using guard_free_write_byte by (simp add: guard_free_def)
  show ?case
  proof (cases "length str \<le> index")
    case True
    then show ?thesis by (subst printChar.simps) simp
  next
    case False
    obtain r s1 where Pair: "write_byte (charCodeAt str index) s = (r, s1)"
      by (cases "write_byte (charCodeAt str index) s")
    show ?thesis
    proof (cases r)
      case (Inl err)
      with w Pair False show ?thesis by (subst printChar.simps) auto
    next
      case (Inr u)
      with "1.IH" False Pair
      have "fst (printChar str (index + 1) s1) \<noteq> Inl NotANumber" by simp
      with Pair Inr False show ?thesis
        by (subst printChar.simps) (auto split: prod.splits sum.splits)
    qed
  qed
qed

text \<open>
  Claim C10. For every string and whatever the pins do, \<open>print\<close> never fails with the
  error of the guard \<open>typeof val !== 'number'\<close> of \<open>write4Bits\<close>: every value it hands
  down is a number. (The guard itself does fire on a value that is not a number.)
\<close>

theorem C10_print_guard_unreachable:
  "fst (print val s) \<noteq> Inl NotANumber \<and> write4Bits (JSString val) s = (Inl NotANumber, s)"
  by (simp add: print_def Let_def printChar_guard write4Bits_def)

section \<open>Initialisation\<close>

lemma command_ok:
  "healthy s \<Longrightarrow> command c s =
     (Inr (), s\<lparr>nwrites := nwrites s + 13, trace := trace s @ command_frame c\<rparr>)"
  by (simp add: command_def andThen_def send_byte_frame sleepus_eq command_frame_def)

lemma write_byte_ok:
  "healthy s \<Longrightarrow> write_byte c s =
     (Inr (), s\<lparr>nwrites := nwrites s + 13, trace := trace s @ char_frame c\<rparr>)"
  by (simp add: write_byte_def andThen_def send_byte_frame sleepus_eq char_frame_def)

lemma displayFunction_eq:
  "displayFunction s =
     0x20 OR (if rows s > 1 then 0x08 else 0) OR (if rows s = 1 \<and> largeFont s then 0x04 else 0)"
  by (simp add: displayFunction_def js_or_def toInt32_def)

lemma init_ok:
  assumes "healthy s"
  shows "init s =
     (Inr (), s\<lparr>nwrites := nwrites s + 89,
        trace := trace s @ [Delay 16] @ nibble_frame 0x03 @ [Delay 16] @ nibble_frame 0x03
          @ [Delay 2] @ nibble_frame 0x03 @ [Delay 2] @ nibble_frame 0x02
          @ command_frame (displayFunction s)
          @ command_frame 0x10
          @ command_frame (displayControl s)
          @ command_frame (displayMode s)
          @ command_frame 0x01
          @ [Delay 3]\<rparr>)"
  using assms
  by (simp add: init_def andThen_def delay_eq write4Bits_ok command_ok displayFunction_def)

text \<open>
  Claim C6. On pins that accept every write, \<open>init\<close> sends, after the wake-up nibbles,
  the function-set byte as a command: 0x20, with the 2-line bit 0x08 exactly when
  \<open>rows > 1\<close> and the large-font bit 0x04 exactly when \<open>rows = 1\<close> and the large font is
  requested. Then it sends, in this order, the commands 0x10, the Display Control
  register, the Display Mode register and clear-display 0x01.
\<close>

theorem C6_init_sequence:
  assumes "healthy s"
  shows "fst (init s) = Inr () \<and>
         trace (snd (init s)) =
           trace s @ [Delay 16] @ nibble_frame 0x03 @ [Delay 16] @ nibble_frame 0x03
             @ [Delay 2] @ nibble_frame 0x03 @ [Delay 2] @ nibble_frame 0x02
             @ command_frame (0x20 OR (if rows s > 1 then 0x08 else 0)
                                   OR (if rows s = 1 \<and> largeFont s then 0x04 else 0))
             @ command_frame 0x10
             @ command_frame (displayControl s)
             @ command_frame (displayMode s)
             @ command_frame 0x01
             @ [Delay 3]"
  using assms by (simp add: init_ok displayFunction_eq)


theorem C6_init_sequence_witness:
  "healthy lcd4 \<and> fst (init lcd4) = Inr () \<and>
   trace (snd (init lcd4)) =
     [Delay 16] @ nibble_frame 0x03 @ [Delay 16] @ nibble_frame 0x03
       @ [Delay 2] @ nibble_frame 0x03 @ [Delay 2] @ nibble_frame 0x02
       @ command_frame 0x28 @ command_frame 0x10 @ command_frame 0x0c @ command_frame 0x06
       @ command_frame 0x01 @ [Delay 3]"
proof -
  have h: "healthy lcd4" by (simp add: lcd4_def constructor_def healthy_def)
  show ?thesis
    using h C6_init_sequence [OF h] by (simp add: lcd4_def constructor_def)
qed

section \<open>Printing\<close>

lemma printChar_ok:
  "healthy s \<Longrightarrow> printChar str index s =
     (Inr (), s\<lparr>nwrites := nwrites s + 13 * (length str - index),
        trace := trace s @ concat (map (\<lambda>c. char_frame (uint c)) (drop index str)) @ [Release]\<rparr>)"
proof (induction str index s rule: printChar.induct)
  case (1 str index s)
  show ?case
  proof (cases "length str \<le> index")
    case True
    then show ?thesis by (subst printChar.simps) (simp add: emit_event_def)
  next
    case False
    have c: "charCodeAt str index = uint (str ! index)"
      using False by (simp add: charCodeAt_def)
    let ?s1 = "s\<lparr>nwrites := nwrites s + 13,
                 trace := trace s @ char_frame (uint (str ! index))\<rparr>"
    have w: "write_byte (charCodeAt str index) s = (Inr (), ?s1)"
      using "1.prems" by (simp add: write_byte_ok c)
    have h1: "healthy ?s1" using "1.prems" by simp
    have ih: "printChar str (index + 1) ?s1 =
      (Inr (), ?s1\<lparr>nwrites := nwrites ?s1 + 13 * (length str - (index + 1)),
        trace := trace ?s1 @ concat (map (\<lambda>c. char_frame (uint c)) (drop (index + 1) str))
                   @ [Release]\<rparr>)"
      using "1.IH" [OF False w [symmetric] refl h1] .
    have d: "drop index str = str ! index # drop (index + 1) str"
      using False by (simp add: Cons_nth_drop_Suc)
    have n: "13 + 13 * (length str - (index + 1)) = 13 * (length str - index)"
      using False by simp
    have "printChar str index s =
            (case printChar str (index + 1) ?s1 of
               (Inl err, s2) \<Rightarrow> (Inl err, emit_event Release s2)
             | (Inr u', s2) \<Rightarrow> (Inr (), s2))"
      using False by (subst printChar.simps) (simp add: w)
    also have "\<dots> = (Inr (), s\<lparr>nwrites := nwrites s + (13 + 13 * (length str - (index + 1))),
        trace := trace s @ concat (map (\<lambda>c. char_frame (uint c)) (drop index str))
                   @ [Release]\<rparr>)"
      by (simp only: ih d) simp
    finally show ?thesis by (simp only: n)
  qed
qed

lemma drop_as_indices: "drop n xs = map ((!) xs) [n..<length xs]"
  by (simp add: list_eq_iff_nth_eq)

lemma print_ok:
  "healthy s \<Longrightarrow> print str s =
     (Inr (), s\<lparr>nwrites := nwrites s + 13 * (length str -
                    (if length str div 80 > 1 then (length str div 80 - 1) * 80 else 0)),
        trace := trace s @ [Acquire]
          @ concat (map (\<lambda>c. char_frame (uint c))
              (drop (if length str div 80 > 1 then (length str div 80 - 1) * 80 else 0) str))
          @ [Release]\<rparr>)"
  by (simp add: print_def Let_def printChar_ok emit_event_def)

text \<open>
  Claim C2. On pins that accept every write, \<open>print str\<close> transmits exactly the
  characters at the indices \<open>start..length str - 1\<close>, in order, where \<open>start\<close> is
  \<open>(n - 1) * 80\<close> if \<open>n = length str div 80\<close> is greater than 1 and 0 otherwise. A string
  of 802 characters has the indices 720..801 transmitted, and the empty string nothing.
\<close>

theorem C2_print_transmits_tail:
  assumes "healthy s"
  shows "fst (print str s) = Inr () \<and>
         trace (snd (print str s)) =
           trace s @ [Acquire]
             @ concat (map (\<lambda>i. char_frame (uint (str ! i)))
                 [(if length str div 80 > 1 then (length str div 80 - 1) * 80 else 0)
                    ..< length str])
             @ [Release] \<and>
         (length str = 802 \<longrightarrow>
            trace (snd (print str s)) =
              trace s @ [Acquire]
                @ concat (map (\<lambda>i. char_frame (uint (str ! i))) [720 ..< 802]) @ [Release]) \<and>
         trace (snd (print [] s)) = trace s @ [Acquire, Release]"
  using assms by (simp add: print_ok drop_as_indices comp_def)


lemma indices_replicate:
  "b \<le> n \<Longrightarrow> map (\<lambda>i. f (replicate n c ! i)) [a..<b] = replicate (b - a) (f c)"
  by (simp add: list_eq_iff_nth_eq)

theorem C2_print_transmits_tail_witness:
  "healthy lcd0 \<and>
   fst (print [0x48, 0x69] lcd0) = Inr () \<and>
   trace (snd (print [0x48, 0x69] lcd0)) =
     [Acquire] @ char_frame 0x48 @ char_frame 0x69 @ [Release] \<and>
   length (replicate 802 (0x41 :: 16 word)) = 802 \<and>
   trace (snd (print (replicate 802 0x41) lcd0)) =
     [Acquire] @ concat (replicate 82 (char_frame 0x41)) @ [Release]"
proof -
  have t: "trace lcd0 = []" by (simp add: lcd0_def)
  have a: "fst (print [0x48, 0x69] lcd0) = Inr () \<and>
           trace (snd (print [0x48, 0x69] lcd0)) =
             [Acquire] @ char_frame 0x48 @ char_frame 0x69 @ [Release]"
    using C2_print_transmits_tail [OF healthy_lcd0, of "[0x48, 0x69]"]
    by (simp add: t upt_rec)
  have m: "map (\<lambda>i. char_frame (uint (replicate 802 (0x41 :: 16 word) ! i))) [720..<802] =
             replicate 82 (char_frame 0x41)"
    using indices_replicate [of 802 802 "\<lambda>c. char_frame (uint c)" "0x41 :: 16 word" 720]
    by (simp del: upt_rec_numeral)
  have b: "trace (snd (print (replicate 802 0x41) lcd0)) =
             [Acquire] @ concat (replicate 82 (char_frame 0x41)) @ [Release]"
    using C2_print_transmits_tail [OF healthy_lcd0, of "replicate 802 (0x41 :: 16 word)"]
    by (simp add: t m del: upt_rec_numeral)
  show ?thesis using healthy_lcd0 a b by simp
qed

section \<open>Display Control\<close>

lemma unchanged_refl: "unchanged s s"
  by (simp add: unchanged_def)

lemma unchanged_trans: "unchanged s s1 \<Longrightarrow> unchanged s1 s2 \<Longrightarrow> unchanged s s2"
  by (simp add: unchanged_def)

lemma frame_only_andThen:
  assumes "frame_only m" and "frame_only k"
  shows "frame_only (andThen m k)"
proof -
  have "unchanged s (snd (andThen m k s))" for s
  proof (cases "m s")
    case (Pair r s1)
    have 1: "unchanged s s1" using assms(1) Pair by (auto simp add: frame_only_def dest: spec [of _ s])
    have 2: "unchanged s1 (snd (k s1))" using assms(2) by (simp add: frame_only_def)
    show ?thesis
      using Pair 1 unchanged_trans [OF 1 2] by (cases r) (simp_all add: andThen_def)
  qed
  then show ?thesis by (simp add: frame_only_def)
qed

lemma frame_only_gpio_write: "frame_only (gpio_write p v)"
  by (simp add: frame_only_def gpio_write_def unchanged_def)

lemma frame_only_sleepus: "frame_only (sleepus n)"
  by (simp add: frame_only_def sleepus_eq unchanged_def)

lemma frame_only_delay: "frame_only (delay n)"
  by (simp add: frame_only_def delay_eq unchanged_def)

lemma promise_all_writes_unchanged: "unchanged s (snd (promise_all_writes ws s))"
proof (induction ws arbitrary: s)
  case Nil
  show ?case by (simp add: unchanged_refl)
next
  case (Cons w ws)
  obtain p v where w: "w = (p, v)" by (cases w)
  obtain r s1 where g: "gpio_write p v s = (r, s1)" by (cases "gpio_write p v s")
  obtain r' s2 where a: "promise_all_writes ws s1 = (r', s2)"
    by (cases "promise_all_writes ws s1")
  have 1: "unchanged s s1"
    using frame_only_gpio_write [of p v] g by (auto simp add: frame_only_def dest: spec [of _ s])
  have 2: "unchanged s1 s2" using Cons.IH [of s1] a by simp
  show ?case
    using unchanged_trans [OF 1 2] by (cases r) (simp_all add: w g a)
qed

lemma frame_only_write4Bits: "frame_only (write4Bits val)"
proof (cases val)
  case (JSNumber n)
  have "write4Bits (JSNumber n) =
          andThen (gpio_write E 1)
            (andThen (promise_all_writes (map (\<lambda>i. (D i, js_and (js_shr n i) 1)) [0..<4]))
               (andThen (gpio_write E 0) (sleepus 1)))"
    by (intro ext) (simp add: write4Bits_def)
  moreover have "frame_only (promise_all_writes ws)" for ws
    by (simp add: frame_only_def promise_all_writes_unchanged)
  ultimately show ?thesis
    by (simp only: JSNumber frame_only_andThen frame_only_gpio_write frame_only_sleepus)
qed (simp_all add: frame_only_def write4Bits_def unchanged_refl)

lemma frame_only_send: "frame_only (send val mode)"
  unfolding send_def
  by (intro frame_only_andThen frame_only_gpio_write frame_only_write4Bits)

lemma frame_only_command: "frame_only (command c)"
  unfolding command_def by (intro frame_only_andThen frame_only_send frame_only_sleepus)

lemma frame_only_command_of: "frame_only (\<lambda>s. command (f s) s)"
  using frame_only_command by (simp add: frame_only_def)

lemma frame_only_init: "frame_only init"
  unfolding init_def
  by (intro frame_only_andThen frame_only_delay frame_only_write4Bits frame_only_command
      frame_only_command_of)

lemma unchanged_detach: "frame_only m \<Longrightarrow> unchanged s (detach m s)"
proof -
  assume f: "frame_only m"
  obtain r s' where m: "m (s\<lparr>trace := []\<rparr>) = (r, s')" by (cases "m (s\<lparr>trace := []\<rparr>)")
  have "unchanged (s\<lparr>trace := []\<rparr>) s'"
    using f m by (auto simp add: frame_only_def dest: spec [of _ "s\<lparr>trace := []\<rparr>"])
  then show ?thesis
    by (simp add: detach_def m unchanged_def)
qed

lemma constructor_displayControl: "displayControl (constructor config hw) = 0x0c"
  using unchanged_detach [OF frame_only_init]
  by (simp add: constructor_def Let_def unchanged_def)

lemma constructor_faults: "faults (constructor config hw) = hw"
  using unchanged_detach [OF frame_only_init]
  by (simp add: constructor_def Let_def unchanged_def)


lemma toggle_op_eq:
  "toggle_op t s =
     command (toggle_reg t (displayControl s))
       (s\<lparr>displayControl := toggle_reg t (displayControl s)\<rparr>)"
  by (cases t)
     (simp_all add: toggle_op.simps toggle_reg_def display_def noDisplay_def cursor_def
        noCursor_def blink_def noBlink_def Let_def)

lemma command_unchanged: "unchanged s (snd (command c s))"
  using frame_only_command by (simp add: frame_only_def)

lemma toggle_op_displayControl:
  "displayControl (snd (toggle_op t s)) = toggle_reg t (displayControl s)"
  using command_unchanged [of "s\<lparr>displayControl := toggle_reg t (displayControl s)\<rparr>"]
  by (simp add: toggle_op_eq unchanged_def)

lemma toggle_op_faults: "faults (snd (toggle_op t s)) = faults s"
  using command_unchanged [of "s\<lparr>displayControl := toggle_reg t (displayControl s)\<rparr>"]
  by (simp add: toggle_op_eq unchanged_def)

lemma toggle_op_ok:
  "healthy s \<Longrightarrow> toggle_op t s =
     (Inr (), s\<lparr>displayControl := toggle_reg t (displayControl s),
                nwrites := nwrites s + 13,
                trace := trace s @ command_frame (toggle_reg t (displayControl s))\<rparr>)"
  by (simp add: toggle_op_eq command_ok)

lemma js_or_small:
  assumes "0 \<le> dc" and "dc < 16" and "0 \<le> b" and "b < 16"
  shows "js_or dc b = dc OR b" and "0 \<le> js_or dc b" and "js_or dc b < 16"
proof -
  have a: "toInt32 dc = dc" using assms by (intro toInt32_id) simp_all
  have b: "toInt32 b = b" using assms by (intro toInt32_id) simp_all
  show "js_or dc b = dc OR b" by (simp add: js_or_def a b)
  show "0 \<le> js_or dc b" using assms by (simp add: js_or_def a b)
  have "dc OR b < 2 ^ 4" using assms by (intro OR_upper) simp_all
  then show "js_or dc b < 16" by (simp add: js_or_def a b)
qed

lemma js_and_not_small:
  assumes "0 \<le> dc" and "dc < 16" and "0 \<le> b" and "b < 16"
  shows "js_and dc (js_not b) = dc AND NOT b" and "0 \<le> js_and dc (js_not b)"
    and "js_and dc (js_not b) < 16"
proof -
  have a: "toInt32 dc = dc" using assms by (intro toInt32_id) simp_all
  have b: "toInt32 b = b" using assms by (intro toInt32_id) simp_all
  have "toInt32 (NOT b) = NOT b"
    unfolding toInt32_def using assms
    by (intro signed_take_bit_int_eq_self) (simp_all add: not_int_def)
  then have e: "js_and dc (js_not b) = dc AND NOT b" by (simp add: js_and_def js_not_def a b)
  show "js_and dc (js_not b) = dc AND NOT b" by (rule e)
  show "0 \<le> js_and dc (js_not b)" using assms by (simp add: e)
  have "dc AND NOT b \<le> dc" using assms by (intro AND_upper1) simp
  then show "js_and dc (js_not b) < 16" using assms by (simp add: e)
qed

lemma toggle_reg_range:
  assumes "0 \<le> dc" and "dc < 16"
  shows "0 \<le> toggle_reg t dc \<and> toggle_reg t dc < 16"
  using js_or_small(2,3) [OF assms, of 4] js_or_small(2,3) [OF assms, of 2]
    js_or_small(2,3) [OF assms, of 1] js_and_not_small(2,3) [OF assms, of 4]
    js_and_not_small(2,3) [OF assms, of 2] js_and_not_small(2,3) [OF assms, of 1]
  by (cases t)
     (simp_all add: toggle_reg_def DISPLAY_ON_def DISPLAY_OFF_def CURSOR_ON_def CURSOR_OFF_def
        BLINK_ON_def BLINK_OFF_def)

lemma run_toggles_inv:
  "0 \<le> displayControl s \<and> displayControl s < 16 \<Longrightarrow>
   0 \<le> displayControl (run_toggles ts s) \<and> displayControl (run_toggles ts s) < 16"
proof (induction ts arbitrary: s)
  case Nil
  then show ?case by simp
next
  case (Cons t ts)
  have "0 \<le> displayControl (snd (toggle_op t s)) \<and> displayControl (snd (toggle_op t s)) < 16"
    using Cons.prems toggle_reg_range [of "displayControl s" t]
    by (simp add: toggle_op_displayControl)
  from Cons.IH [OF this] show ?case by simp
qed

lemma run_toggles_faults: "faults (run_toggles ts s) = faults s"
  by (induction ts arbitrary: s) (simp_all add: toggle_op_faults)

lemma display_sequence_value:
  "toggle_reg TCursor (toggle_reg TNoDisplay (toggle_reg TDisplay 0x0c)) =
     ((0x0c OR 0x04) AND NOT 0x04) OR 0x02"
  by (simp add: toggle_reg_def js_or_def js_and_def js_not_def toInt32_def DISPLAY_ON_def
      DISPLAY_OFF_def CURSOR_ON_def)

text \<open>
  Claim C5. The Display Control register of a new driver is 0x0c. After
  \<open>display(); noDisplay(); cursor()\<close> it is \<open>((0x0c | 0x04) & ~0x04) | 0x02\<close>. After any
  sequence of the six Display Control operations from construction, on pins that accept
  every write, one more such operation transmits exactly one command byte, and that
  byte is the register value the operation has just stored, a value in 0..255.
\<close>

theorem C5_display_control_register:
  "displayControl (constructor config hw) = 0x0c \<and>
   displayControl (run_toggles [TDisplay, TNoDisplay, TCursor] (constructor config hw)) =
     ((0x0c OR 0x04) AND NOT 0x04) OR 0x02 \<and>
   ((\<forall>k. \<not> hw k) \<longrightarrow>
      fst (toggle_op t (run_toggles ts (constructor config hw))) = Inr () \<and>
      trace (snd (toggle_op t (run_toggles ts (constructor config hw)))) =
        trace (run_toggles ts (constructor config hw))
          @ command_frame
              (displayControl (snd (toggle_op t (run_toggles ts (constructor config hw))))) \<and>
      0 \<le> displayControl (snd (toggle_op t (run_toggles ts (constructor config hw)))) \<and>
      displayControl (snd (toggle_op t (run_toggles ts (constructor config hw)))) \<le> 255)"
proof (intro conjI impI)
  let ?c = "constructor config hw"
  let ?s = "run_toggles ts ?c"
  show "displayControl ?c = 0x0c" by (rule constructor_displayControl)
  show "displayControl (run_toggles [TDisplay, TNoDisplay, TCursor] ?c) =
          ((0x0c OR 0x04) AND NOT 0x04) OR 0x02"
    using display_sequence_value
    by (simp add: toggle_op_displayControl constructor_displayControl)
  have inv: "0 \<le> displayControl ?s \<and> displayControl ?s < 16"
    by (rule run_toggles_inv) (simp add: constructor_displayControl)
  have rng: "0 \<le> toggle_reg t (displayControl ?s) \<and> toggle_reg t (displayControl ?s) < 16"
    using inv by (intro toggle_reg_range) simp_all
  show "0 \<le> displayControl (snd (toggle_op t ?s))"
    using rng by (simp add: toggle_op_displayControl)
  show "displayControl (snd (toggle_op t ?s)) \<le> 255"
    using rng by (simp add: toggle_op_displayControl)
  assume hw: "\<forall>k. \<not> hw k"
  then have h: "healthy ?s"
    by (simp add: healthy_def run_toggles_faults constructor_faults)
  show "fst (toggle_op t ?s) = Inr ()" by (simp add: toggle_op_ok [OF h])
  show "trace (snd (toggle_op t ?s)) = trace ?s @ command_frame (displayControl (snd (toggle_op t ?s)))"
    by (simp add: toggle_op_ok [OF h])
qed


lemma healthy_lcd4: "healthy lcd4"
  by (simp add: lcd4_def constructor_def healthy_def)

lemma run_two_toggles_lcd4:
  "run_toggles [TDisplay, TNoDisplay] lcd4 =
     lcd4\<lparr>displayControl := 0x08, nwrites := 26,
           trace := command_frame 0x0c @ command_frame 0x08\<rparr>"
proof -
  have 1: "toggle_reg TDisplay 0x0c = 0x0c"
    by (simp add: toggle_reg_def js_or_def toInt32_def DISPLAY_ON_def)
  have 2: "toggle_reg TNoDisplay 0x0c = 0x08"
    by (simp add: toggle_reg_def js_and_def js_not_def toInt32_def DISPLAY_OFF_def)
  have d: "displayControl lcd4 = 0x0c" "trace lcd4 = []" "nwrites lcd4 = 0"
    by (simp_all add: lcd4_def constructor_def)
  have a: "toggle_op TDisplay lcd4 =
             (Inr (), lcd4\<lparr>displayControl := 0x0c, nwrites := 13, trace := command_frame 0x0c\<rparr>)"
    by (simp add: toggle_op_ok [OF healthy_lcd4] d 1)
  have h: "healthy (lcd4\<lparr>displayControl := 0x0c, nwrites := 13, trace := command_frame 0x0c\<rparr>)"
    using healthy_lcd4 by simp
  show ?thesis
    by (simp add: a toggle_op_ok [OF h] 2)
qed

theorem C5_display_control_register_witness:
  "(\<forall>k. \<not> (\<lambda>k::nat. False) k) \<and>
   displayControl (run_toggles [TDisplay, TNoDisplay, TCursor] lcd4) = 0x0a \<and>
   fst (toggle_op TCursor (run_toggles [TDisplay, TNoDisplay] lcd4)) = Inr () \<and>
   trace (snd (toggle_op TCursor (run_toggles [TDisplay, TNoDisplay] lcd4))) =
     command_frame 0x0c @ command_frame 0x08 @ command_frame 0x0a"
proof -
  have 3: "toggle_reg TCursor 0x08 = 0x0a"
    by (simp add: toggle_reg_def js_or_def toInt32_def CURSOR_ON_def)
  have v: "displayControl (snd (toggle_op TCursor (run_toggles [TDisplay, TNoDisplay] lcd4))) = 0x0a"
    by (simp add: toggle_op_displayControl run_two_toggles_lcd4 3 del: run_toggles.simps)
  have t: "trace (run_toggles [TDisplay, TNoDisplay] lcd4) = command_frame 0x0c @ command_frame 0x08"
    by (simp add: run_two_toggles_lcd4 del: run_toggles.simps)
  show ?thesis
    using C5_display_control_register
      [of "\<lparr>cfg_cols = 20, cfg_rows = 4, cfg_largeFont = True, cfg_notAutomaticInit = True\<rparr>"
          "\<lambda>k. False" TCursor "[TDisplay, TNoDisplay]"]
    unfolding lcd4_def [symmetric] v t
    by simp
qed

section \<open>Cursor positioning\<close>

lemma healthy_lcd2: "healthy lcd2"
  by (simp add: lcd2_def constructor_def healthy_def)

text \<open>A row greater than the row count is replaced by the last row.\<close>

lemma setCursor_above:
  assumes "1 \<le> rows s" and "rows s \<le> 4" and "row > rows s"
  shows "setCursor col row s = command (js_or SET_CURSOR (col + ROW_OFFSETS ! nat (rows s - 1))) s"
  using assms by (simp add: setCursor_def ROW_OFFSETS_at_def ROW_OFFSETS_def)

lemma setCursor_5_of_4: "setCursor col 5 lcd4 = command (js_or 0x80 (col + 0x54)) lcd4"
proof -
  have r: "rows lcd4 = 4" by (simp add: lcd4_def constructor_def)
  have "ROW_OFFSETS ! nat (4 - 1) = 0x54" by (simp add: ROW_OFFSETS_def numeral_3_eq_3)
  then show ?thesis
    using setCursor_above [of lcd4 5 col] by (simp add: r SET_CURSOR_def)
qed

lemma command_frame_0x94:
  "command_frame 0x94 =
     [PinWrite RS 0,
      PinWrite E 1, PinWrite (D 0) 1, PinWrite (D 1) 0, PinWrite (D 2) 0, PinWrite (D 3) 1,
      PinWrite E 0, Sleepus 1,
      PinWrite E 1, PinWrite (D 0) 0, PinWrite (D 1) 0, PinWrite (D 2) 1, PinWrite (D 3) 0,
      PinWrite E 0, Sleepus 1, Sleepus 39]"
  by (simp add: command_frame_def byte_frame_def nibble_frame_def nibble_bit_def
      bit_numeral_simps numeral_3_eq_3 numeral_2_eq_2 bit_Suc bit_0 drop_bit_eq_div)

lemma command_frame_0xC0:
  "command_frame 0xC0 =
     [PinWrite RS 0,
      PinWrite E 1, PinWrite (D 0) 0, PinWrite (D 1) 0, PinWrite (D 2) 1, PinWrite (D 3) 1,
      PinWrite E 0, Sleepus 1,
      PinWrite E 1, PinWrite (D 0) 0, PinWrite (D 1) 0, PinWrite (D 2) 0, PinWrite (D 3) 0,
      PinWrite E 0, Sleepus 1, Sleepus 39]"
  by (simp add: command_frame_def byte_frame_def nibble_frame_def nibble_bit_def
      bit_numeral_simps numeral_3_eq_3 numeral_2_eq_2 bit_Suc bit_0 drop_bit_eq_div)

text \<open>
  Claim C3 says that every row \<open>row \<ge> rows\<close> is replaced by \<open>rows - 1\<close>. The test in
  \<open>setCursor\<close> is \<open>row > this.rows\<close>, so \<open>row = rows\<close> is used as it is: on a two-row
  display \<open>setCursor(0, 2)\<close> sends 0x94 (offset 0x14 of row 2), not 0xC0 (offset 0x40 of
  row 1), and on a four-row display \<open>setCursor(7, 4)\<close> reads past the offset table and
  sends 0x80 whatever the column.
\<close>

theorem C3_setCursor_row_equal_rows:
  "rows lcd2 = 2 \<and>
   fst (setCursor 0 2 lcd2) = Inr () \<and>
   trace (snd (setCursor 0 2 lcd2)) = command_frame 0x94 \<and>
   js_or SET_CURSOR (0 + ROW_OFFSETS ! nat (rows lcd2 - 1)) = 0xC0 \<and>
   command_frame 0x94 \<noteq> command_frame 0xC0 \<and>
   rows lcd4 = 4 \<and>
   trace (snd (setCursor 7 4 lcd4)) = command_frame 0x80"
proof -
  have r2: "rows lcd2 = 2" "trace lcd2 = []" by (simp_all add: lcd2_def constructor_def)
  have r4: "rows lcd4 = 4" "trace lcd4 = []" by (simp_all add: lcd4_def constructor_def)
  have a: "setCursor 0 2 lcd2 = command 0x94 lcd2"
    by (simp add: setCursor_def r2 ROW_OFFSETS_at_def ROW_OFFSETS_def SET_CURSOR_def js_or_def
        toInt32_def)
  have b: "setCursor 7 4 lcd4 = command 0x80 lcd4"
    by (simp add: setCursor_def r4 ROW_OFFSETS_at_def ROW_OFFSETS_def SET_CURSOR_def js_or_def
        toInt32_def)
  have c: "js_or SET_CURSOR (0 + ROW_OFFSETS ! nat (rows lcd2 - 1)) = 0xC0"
    by (simp add: r2 ROW_OFFSETS_def SET_CURSOR_def js_or_def toInt32_def)
  have d: "command_frame 0x94 \<noteq> command_frame 0xC0"
    by (simp add: command_frame_0x94 command_frame_0xC0)
  show ?thesis
    using c d
    by (simp add: a b r2 r4 command_ok [OF healthy_lcd2] command_ok [OF healthy_lcd4])
qed

section \<open>Reporting completion and failure (notification adapter)\<close>

lemma quietI:
  "(\<And>s. \<exists>ws. trace (snd (m s)) = trace s @ ws \<and> filter is_report ws = []) \<Longrightarrow> quiet m"
  by (simp add: quiet_def)

lemma quietD:
  "quiet m \<Longrightarrow> m s = (r, s') \<Longrightarrow> \<exists>ws. trace s' = trace s @ ws \<and> filter is_report ws = []"
  by (auto simp add: quiet_def dest: spec [of _ s])

lemma quiet_andThen:
  assumes "quiet m" and "quiet k"
  shows "quiet (andThen m k)"
proof (rule quietI)
  fix s
  obtain r s1 where m: "m s = (r, s1)" by (cases "m s")
  obtain ws where ws: "trace s1 = trace s @ ws" "filter is_report ws = []"
    using quietD [OF assms(1) m] by blast
  show "\<exists>ws. trace (snd (andThen m k s)) = trace s @ ws \<and> filter is_report ws = []"
  proof (cases r)
    case (Inl e)
    then show ?thesis using m ws by (simp add: andThen_def)
  next
    case (Inr u)
    obtain r' s2 where k: "k s1 = (r', s2)" by (cases "k s1")
    obtain ws' where ws': "trace s2 = trace s1 @ ws'" "filter is_report ws' = []"
      using quietD [OF assms(2) k] by blast
    have "trace s2 = trace s @ (ws @ ws') \<and> filter is_report (ws @ ws') = []"
      using ws ws' by simp
    then show ?thesis using m Inr k by (auto simp add: andThen_def)
  qed
qed

lemma quiet_gpio_write: "quiet (gpio_write p v)"
  by (rule quietI) (simp add: gpio_write_def)

lemma quiet_sleepus: "quiet (sleepus n)"
  by (rule quietI) (simp add: sleepus_eq)

lemma quiet_promise_all_writes: "quiet (promise_all_writes ws)"
proof (induction ws)
  case Nil
  show ?case by (rule quietI) simp
next
  case (Cons w ws)
  obtain p v where w: "w = (p, v)" by (cases w)
  show ?case
  proof (rule quietI)
    fix s
    obtain r s1 where g: "gpio_write p v s = (r, s1)" by (cases "gpio_write p v s")
    obtain r' s2 where a: "promise_all_writes ws s1 = (r', s2)"
      by (cases "promise_all_writes ws s1")
    obtain e1 where e1: "trace s1 = trace s @ e1" "filter is_report e1 = []"
      using quietD [OF quiet_gpio_write g] by blast
    obtain e2 where e2: "trace s2 = trace s1 @ e2" "filter is_report e2 = []"
      using quietD [OF Cons.IH a] by blast
    have "trace s2 = trace s @ (e1 @ e2) \<and> filter is_report (e1 @ e2) = []"
      using e1 e2 by simp
    then show "\<exists>es. trace (snd (promise_all_writes (w # ws) s)) = trace s @ es \<and>
                  filter is_report es = []"
      by (cases r) (auto simp add: w g a)
  qed
qed

lemma quiet_write4Bits: "quiet (write4Bits val)"
proof (cases val)
  case (JSNumber n)
  have "write4Bits (JSNumber n) =
          andThen (gpio_write E 1)
            (andThen (promise_all_writes (map (\<lambda>i. (D i, js_and (js_shr n i) 1)) [0..<4]))
               (andThen (gpio_write E 0) (sleepus 1)))"
    by (intro ext) (simp add: write4Bits_def)
  then show ?thesis
    by (simp only: JSNumber quiet_andThen quiet_gpio_write quiet_sleepus
        quiet_promise_all_writes)
qed (simp_all add: quiet_def write4Bits_def)

lemma quiet_send: "quiet (send val mode)"
  unfolding send_def by (intro quiet_andThen quiet_gpio_write quiet_write4Bits)


lemma quiet_command: "quiet (command c)"
  unfolding command_def by (intro quiet_andThen quiet_send quiet_sleepus)




lemma eventOrCB_None:
  "cb \<or> ev \<noteq> ''error'' \<or> listeners s ''error'' \<Longrightarrow>
   eventOrCB None v ev cb s = (Inr (), s\<lparr>trace := trace s @ [report cb ev v]\<rparr>)"
  by (auto simp add: eventOrCB_def report_def emit_event_def)

lemma eventOrCB_Some:
  "cb \<or> ev \<noteq> ''error'' \<or> listeners s ''error'' \<Longrightarrow>
   eventOrCB (Some e) v ev cb s = (Inr (), s\<lparr>trace := trace s @ [report cb ev (PErr e)]\<rparr>)"
  by (auto simp add: eventOrCB_def report_def emit_event_def)

lemma eventOrCB_unheard:
  "\<not> cb \<Longrightarrow> \<not> listeners s ''error'' \<Longrightarrow> eventOrCB (Some e) v ''error'' cb s = (Inl e, s)"
  by (simp add: eventOrCB_def)

lemma printChar_catch_heard:
  "cb \<or> listeners s ''error'' \<Longrightarrow>
   printChar_catch e cb s =
     (Settled (Inl e), s\<lparr>trace := trace s @ [report cb ''error'' (PErr e), Release]\<rparr>)"
  by (auto simp add: printChar_catch_def eventOrCB_Some emit_event_def)

lemma printChar_catch_unheard:
  "\<not> cb \<Longrightarrow> \<not> listeners s ''error'' \<Longrightarrow> printChar_catch e cb s = (Pending, s)"
  by (simp add: printChar_catch_def eventOrCB_unheard)


lemma is_report_report [simp]: "is_report (report cb ev p)"
  by (simp add: report_def)

lemma printChar_ev_ok:
  "healthy s \<Longrightarrow> printChar_ev str index cb s =
     (Settled (Inr ()), s\<lparr>nwrites := nwrites s + 13 * (length str - index),
        trace := trace s @ concat (map (\<lambda>c. char_frame (uint c)) (drop index str))
                   @ [report cb ''printed'' (PStr str), Release]\<rparr>)"
proof (induction str index cb s rule: printChar_ev.induct)
  case (1 str index cb s)
  show ?case
  proof (cases "length str \<le> index")
    case True
    then show ?thesis
      by (subst printChar_ev.simps) (simp add: emit_event_def eventOrCB_None)
  next
    case False
    have c: "charCodeAt str index = uint (str ! index)"
      using False by (simp add: charCodeAt_def)
    let ?s1 = "s\<lparr>nwrites := nwrites s + 13,
                 trace := trace s @ char_frame (uint (str ! index))\<rparr>"
    have w: "write_byte (charCodeAt str index) s = (Inr (), ?s1)"
      using "1.prems" by (simp add: write_byte_ok c)
    have h1: "healthy ?s1" using "1.prems" by simp
    have ih: "printChar_ev str (index + 1) cb ?s1 =
      (Settled (Inr ()), ?s1\<lparr>nwrites := nwrites ?s1 + 13 * (length str - (index + 1)),
        trace := trace ?s1 @ concat (map (\<lambda>c. char_frame (uint c)) (drop (index + 1) str))
                   @ [report cb ''printed'' (PStr str), Release]\<rparr>)"
      using "1.IH" [OF False w [symmetric] refl h1] .
    have d: "drop index str = str ! index # drop (index + 1) str"
      using False by (simp add: Cons_nth_drop_Suc)
    have n: "13 + 13 * (length str - (index + 1)) = 13 * (length str - index)"
      using False by simp
    have "printChar_ev str index cb s =
            (case printChar_ev str (index + 1) cb ?s1 of
               (Pending, s2) \<Rightarrow> (Pending, s2)
             | (Settled (Inl err), s2) \<Rightarrow> printChar_catch err cb s2
             | (Settled (Inr u'), s2) \<Rightarrow> (Settled (Inr ()), s2))"
      using False by (subst printChar_ev.simps) (simp add: w)
    also have "\<dots> = (Settled (Inr ()),
        s\<lparr>nwrites := nwrites s + (13 + 13 * (length str - (index + 1))),
        trace := trace s @ concat (map (\<lambda>c. char_frame (uint c)) (drop index str))
                   @ [report cb ''printed'' (PStr str), Release]\<rparr>)"
      by (simp only: ih d) simp
    finally show ?thesis by (simp only: n)
  qed
qed



lemma eventOrCB_listeners: "listeners (snd (eventOrCB err v ev cb s)) = listeners s"
  by (simp add: eventOrCB_def emit_event_def split: option.splits)

lemma printChar_catch_listeners: "listeners (snd (printChar_catch err cb s)) = listeners s"
proof (cases "eventOrCB (Some err) PUndefined ''error'' cb s")
  case (Pair r s1)
  with eventOrCB_listeners [of "Some err" PUndefined "''error''" cb s]
  show ?thesis by (cases r) (simp_all add: printChar_catch_def emit_event_def)
qed



lemma tryCommand_ok:
  "healthy s \<Longrightarrow> tryCommand cmd cb s =
     (Inr True, s\<lparr>nwrites := nwrites s + 13, trace := trace s @ command_frame cmd\<rparr>)"
  by (simp add: tryCommand_def command_ok)

lemma commandAndDelay_ev_ok:
  "healthy s \<Longrightarrow> ev \<noteq> ''error'' \<Longrightarrow> commandAndDelay_ev cmd t ev cb s =
     (Settled (Inr ()), s\<lparr>nwrites := nwrites s + 13,
        trace := trace s @ [Acquire] @ map Detached (command_frame cmd)
                   @ [Delay t, report cb ev PNull, Release]\<rparr>)"
  by (simp add: commandAndDelay_ev_def detach_def emit_event_def tryCommand_ok delay_eq
      eventOrCB_None)

lemma print_ev_ok:
  "healthy s \<Longrightarrow> print_ev str cb s =
     (Settled (Inr ()), s\<lparr>nwrites := nwrites s + 13 * (length str -
                    (if length str div 80 > 1 then (length str div 80 - 1) * 80 else 0)),
        trace := trace s @ [Acquire]
          @ concat (map (\<lambda>c. char_frame (uint c))
              (drop (if length str div 80 > 1 then (length str div 80 - 1) * 80 else 0) str))
          @ [report cb ''printed'' (PStr str), Release]\<rparr>)"
  by (simp add: print_ev_def Let_def printChar_ev_ok emit_event_def)










lemma lcd_rs_fault_fields:
  "faults lcd_rs_fault = (\<lambda>k. k = 0)" "nwrites lcd_rs_fault = 0" "trace lcd_rs_fault = []"
  "listeners lcd_rs_fault = (\<lambda>ev. True)"
  "faults lcd_rs_fault_unheard = (\<lambda>k. k = 0)" "nwrites lcd_rs_fault_unheard = 0"
  "trace lcd_rs_fault_unheard = []" "listeners lcd_rs_fault_unheard = (\<lambda>ev. False)"
  by (simp_all add: lcd_rs_fault_def lcd_rs_fault_unheard_def constructor_def)

lemma write_byte_first_fault:
  "faults s (nwrites s) \<Longrightarrow> write_byte c s =
     (Inl PinWriteError, s\<lparr>nwrites := Suc (nwrites s), trace := trace s @ [PinFault RS 1]\<rparr>)"
  by (simp add: write_byte_def send_def andThen_def gpio_write_def)

lemma command_first_fault:
  "faults s (nwrites s) \<Longrightarrow> command c s =
     (Inl PinWriteError, s\<lparr>nwrites := Suc (nwrites s), trace := trace s @ [PinFault RS 0]\<rparr>)"
  by (simp add: command_def send_def andThen_def gpio_write_def)


text \<open>
  The same failing \<open>print\<close> with neither a callback nor a listener for \<open>'error'\<close>: \<open>emit\<close>
  throws in the \<open>catch\<close> block, so nothing is reported, the lock is not released and
  the promise stays pending.
\<close>

lemma print_ev_H_rs_fault_unheard:
  "print_ev [0x48] False lcd_rs_fault_unheard =
     (Pending, lcd_rs_fault_unheard\<lparr>nwrites := 1, trace := [Acquire, PinFault RS 1]\<rparr>)"
  by (simp add: print_ev_def printChar_ev.simps [of _ 0] charCodeAt_def write_byte_first_fault
      printChar_catch_unheard emit_event_def lcd_rs_fault_fields)



section \<open>The two files compared\<close>

lemma clear_rs_fault:
  "clear lcd_rs_fault =
     (Inl PinWriteError,
      lcd_rs_fault\<lparr>nwrites := 1, trace := [Acquire, PinFault RS 0, Release]\<rparr>)"
  by (simp add: clear_def commandAndDelay_def andThen_def command_first_fault emit_event_def
      lcd_rs_fault_fields)

lemma clear_ev_rs_fault:
  "clear_ev False lcd_rs_fault =
     (Settled (Inr ()),
      lcd_rs_fault\<lparr>nwrites := 1,
        trace := [Acquire, Detached (PinFault RS 0),
                  Detached (Emit ''error'' (PErr PinWriteError)),
                  Delay 3, Emit ''clear'' PNull, Release]\<rparr>)"
  by (simp add: clear_ev_def commandAndDelay_ev_def detach_def tryCommand_def
      command_first_fault delay_eq eventOrCB_def emit_event_def lcd_rs_fault_fields)

text \<open>
  Claim C8 says that both files issue the same pin writes and waits. When the first pin
  write of \<open>clear\<close> fails, the plain-promise file rejects without waiting, while the
  adapter, whose \<open>commandAndDelay\<close> does not await \<open>tryCommand\<close>, still waits 3 ms,
  reports \<open>clear\<close> after \<open>error\<close> (here to a registered listener), and resolves.
\<close>

theorem C8_clear_diverges_on_fault:
  "fst (clear lcd_rs_fault) = Inl PinWriteError \<and>
   trace (snd (clear lcd_rs_fault)) = [Acquire, PinFault RS 0, Release] \<and>
   fst (clear_ev False lcd_rs_fault) = Settled (Inr ()) \<and>
   trace (snd (clear_ev False lcd_rs_fault)) =
     [Acquire, Detached (PinFault RS 0), Detached (Emit ''error'' (PErr PinWriteError)),
      Delay 3, Emit ''clear'' PNull, Release] \<and>
   core_events (trace (snd (clear lcd_rs_fault))) = [PinFault RS 0] \<and>
   core_events (trace (snd (clear_ev False lcd_rs_fault))) = [PinFault RS 0, Delay 3]"
  by (simp add: clear_rs_fault clear_ev_rs_fault core_events_def)

text \<open>
  Without a listener for \<open>'error'\<close> the \<open>emit\<close> in \<open>tryCommand\<close> throws; that only rejects
  the promise nobody awaits, and the adapter waits, reports \<open>clear\<close> and resolves all
  the same.
\<close>

lemma clear_ev_rs_fault_unheard:
  "clear_ev False lcd_rs_fault_unheard =
     (Settled (Inr ()),
      lcd_rs_fault_unheard\<lparr>nwrites := 1,
        trace := [Acquire, Detached (PinFault RS 0), Delay 3, Emit ''clear'' PNull,
                  Release]\<rparr>)"
  by (simp add: clear_ev_def commandAndDelay_ev_def detach_def tryCommand_def
      command_first_fault delay_eq eventOrCB_def emit_event_def lcd_rs_fault_fields)

lemma commandAndDelay_ok:
  "healthy s \<Longrightarrow> commandAndDelay cmd t s =
     (Inr (), s\<lparr>nwrites := nwrites s + 13,
        trace := trace s @ [Acquire] @ command_frame cmd @ [Delay t, Release]\<rparr>)"
  by (simp add: commandAndDelay_def andThen_def emit_event_def command_ok delay_eq)

lemma core_events_append: "core_events (xs @ ys) = core_events xs @ core_events ys"
  by (simp add: core_events_def)

lemma core_events_Cons:
  "core_events [] = []"
  "core_events (e # es) = (if is_core e then undetach e # core_events es else core_events es)"
  by (simp_all add: core_events_def)

lemma core_events_command_frame:
  "core_events (command_frame c) = command_frame c"
  "core_events (map Detached (command_frame c)) = command_frame c"
  by (simp_all add: core_events_def command_frame_def byte_frame_def nibble_frame_def)

lemma core_events_char_frames:
  "core_events (concat (map (\<lambda>c. char_frame (uint c)) cs)) =
     concat (map (\<lambda>c. char_frame (uint c)) cs)"
  by (induction cs)
     (simp_all add: core_events_def char_frame_def byte_frame_def nibble_frame_def)

text \<open>When no pin write fails the two files issue the same pin writes and waits (the
  adapter with its command detached from the wait).\<close>

lemma healthy_same_core:
  assumes "healthy s" and "ev \<noteq> ''error''"
  shows "core_events (new_events s (snd (commandAndDelay_ev cmd t ev cb s))) =
           core_events (new_events s (snd (commandAndDelay cmd t s)))"
    and "core_events (new_events s (snd (print_ev str cb s))) =
           core_events (new_events s (snd (print str s)))"
  using assms
  by (simp_all add: commandAndDelay_ev_ok commandAndDelay_ok print_ev_ok print_ok new_events_def
      core_events_append core_events_command_frame core_events_char_frames core_events_Cons
      report_def)

lemma write_byte_before_fault:
  assumes "\<forall>k. nwrites s \<le> k \<and> k < nwrites s + 13 \<longrightarrow> \<not> faults s k"
  shows "write_byte c s =
     (Inr (), s\<lparr>nwrites := nwrites s + 13, trace := trace s @ char_frame c\<rparr>)"
proof -
  have f: "\<not> faults s (nwrites s + j)" if "j < 13" for j
    using assms that by simp
  have f0: "\<not> faults s (nwrites s)" using f [of 0] by simp
  note fs = f0 f [of 1, simplified] f [of 2, simplified] f [of 3, simplified]
    f [of 4, simplified] f [of 5, simplified] f [of 6, simplified] f [of 7, simplified]
    f [of 8, simplified] f [of 9, simplified] f [of 10, simplified] f [of 11, simplified]
    f [of 12, simplified]
  have "write_byte c s =
     (Inr (), s\<lparr>nwrites := nwrites s + 13,
        trace := trace s @ PinWrite RS 1 # nibble_frame (js_shr c 4) @ nibble_frame c
                   @ [Sleepus 43]\<rparr>)"
    using fs
    by (simp add: write_byte_def send_def write4Bits_def andThen_def gpio_write_def upt_0_4
        sleepus_eq js_data_bit nibble_frame_def numeral_3_eq_3 eval_nat_numeral)
  then show ?thesis
    using nibble_frame_low [of c]
    by (simp add: char_frame_def byte_frame_def nibble_frame_high)
qed

text \<open>A pin fault at the second character of a print: each level of the \<open>printChar\<close>
  recursion catches it, so the error is reported and the lock released twice.\<close>

lemma print_ev_second_char_fault:
  "print_ev [0x48, 0x69] False (lcd0\<lparr>faults := (\<lambda>k. k = 13)\<rparr>) =
     (Settled (Inl PinWriteError),
      lcd0\<lparr>faults := (\<lambda>k. k = 13), nwrites := 14,
        trace := [Acquire] @ char_frame 0x48
          @ [PinFault RS 1, Emit ''error'' (PErr PinWriteError), Release,
             Emit ''error'' (PErr PinWriteError), Release]\<rparr>)"
proof -
  let ?s = "emit_event Acquire (lcd0\<lparr>faults := (\<lambda>k. k = 13)\<rparr>)"
  have n: "nwrites ?s = 0" "faults ?s = (\<lambda>k. k = 13)" "trace ?s = [Acquire]"
    "listeners ?s = (\<lambda>ev. True)"
    by (simp_all add: emit_event_def lcd0_def)
  have z: "nwrites lcd0 = 0" "trace lcd0 = []" "listeners lcd0 = (\<lambda>ev. True)"
    by (simp_all add: lcd0_def)
  have w1: "write_byte 0x48 ?s =
              (Inr (), ?s\<lparr>nwrites := nwrites ?s + 13, trace := trace ?s @ char_frame 0x48\<rparr>)"
    by (rule write_byte_before_fault) (simp add: n)
  have w2: "write_byte 0x69 (?s\<lparr>nwrites := 13, trace := [Acquire] @ char_frame 0x48\<rparr>) =
              (Inl PinWriteError,
               ?s\<lparr>nwrites := 14, trace := [Acquire] @ char_frame 0x48 @ [PinFault RS 1]\<rparr>)"
    by (simp add: write_byte_first_fault n)
  have p1: "printChar_ev [0x48, 0x69] (Suc 0) False
              (?s\<lparr>nwrites := 13, trace := [Acquire] @ char_frame 0x48\<rparr>) =
            (Settled (Inl PinWriteError),
             ?s\<lparr>nwrites := 14, trace := [Acquire] @ char_frame 0x48
                 @ [PinFault RS 1, Emit ''error'' (PErr PinWriteError), Release]\<rparr>)"
    using w2
    by (subst printChar_ev.simps)
       (simp add: charCodeAt_def printChar_catch_heard report_def emit_event_def z)
  have p0: "printChar_ev [0x48, 0x69] 0 False ?s =
            (Settled (Inl PinWriteError),
             ?s\<lparr>nwrites := 14, trace := [Acquire] @ char_frame 0x48
                 @ [PinFault RS 1, Emit ''error'' (PErr PinWriteError), Release,
                    Emit ''error'' (PErr PinWriteError), Release]\<rparr>)"
    using w1 p1
    by (subst printChar_ev.simps)
       (simp add: charCodeAt_def printChar_catch_heard report_def emit_event_def z)
  show ?thesis
    using p0 by (simp add: print_ev_def emit_event_def z)
qed

end
